theory Spec2Isabelle
  imports Main "HOL-Library.Sublist"
begin

section \<open>The parameter-grouping transform\<close>

text \<open>
  \<^verbatim>\<open>Controller.create_json_from_params\<close> (src/app/controller.py, lines 376-403) reads the rows
  of the table \<^verbatim>\<open>params.step_params.table_section.targets\<close>. The table declares five columns,
  so a row is a record of five cells. The type of a cell is left open (\<open>'c\<close>): the code only
  copies cells and compares them for equality (as dictionary keys).
\<close>

record 'c row =
  parameter_name :: 'c
  parameter_group :: 'c
  type_name :: 'c
  family_name :: 'c
  row_value :: 'c

text \<open>The dictionaries appended to \<^verbatim>\<open>grouped[key]\<close> and to \<^verbatim>\<open>result\<close>.\<close>

record 'c target =
  TypeName :: 'c
  FamilyName :: 'c
  Value :: 'c

record 'c entry =
  ParameterName :: 'c
  ParameterGroup :: 'c
  Targets :: "'c target list"

text \<open>\<^verbatim>\<open>key = (row["parameter_name"], row["parameter_group"])\<close>\<close>

definition row_key :: "'c row \<Rightarrow> 'c \<times> 'c" where
  "row_key r = (parameter_name r, parameter_group r)"

text \<open>The dictionary literal of lines 388-392.\<close>

definition row_target :: "'c row \<Rightarrow> 'c target" where
  "row_target r = \<lparr>TypeName = type_name r, FamilyName = family_name r, Value = row_value r\<rparr>"

text \<open>
  \<^verbatim>\<open>grouped\<close> is a \<^verbatim>\<open>defaultdict(list)\<close>. A Python dictionary iterates in insertion order, and
  the second loop depends on that order, so the dictionary is an association list in insertion
  order. \<^verbatim>\<open>grouped[key].append(t)\<close> appends to the list of a key that is present, in place, and
  inserts a missing key at the end with the one-element list.
\<close>

fun grouped_append :: "('k \<times> 'v list) list \<Rightarrow> 'k \<Rightarrow> 'v \<Rightarrow> ('k \<times> 'v list) list" where
  "grouped_append [] k t = [(k, [t])]"
| "grouped_append ((k', ts) # g) k t =
     (if k' = k then (k', ts @ [t]) # g else (k', ts) # grouped_append g k t)"

text \<open>The first loop (lines 386-392), started with the dictionary \<open>g\<close>.\<close>

fun group_rows :: "(('c \<times> 'c) \<times> 'c target list) list \<Rightarrow> 'c row list
    \<Rightarrow> (('c \<times> 'c) \<times> 'c target list) list" where
  "group_rows g [] = g"
| "group_rows g (r # rs) = group_rows (grouped_append g (row_key r) (row_target r)) rs"

text \<open>The dictionary literal of lines 397-401, for one item of \<^verbatim>\<open>grouped.items()\<close>.\<close>

definition result_entry :: "('c \<times> 'c) \<times> 'c target list \<Rightarrow> 'c entry" where
  "result_entry item =
     \<lparr>ParameterName = fst (fst item), ParameterGroup = snd (fst item), Targets = snd item\<rparr>"

definition create_json_from_params :: "'c row list \<Rightarrow> 'c entry list" where
  "create_json_from_params rows = map result_entry (group_rows [] rows)"

text \<open>The key of an entry of the result.\<close>

definition entry_key :: "'c entry \<Rightarrow> 'c \<times> 'c" where
  "entry_key e = (ParameterName e, ParameterGroup e)"

subsection \<open>The grouping as the specification words it\<close>

text \<open>
  The distinct elements of a list, each at the place of its first occurrence.
\<close>

fun first_occurrences :: "'a list \<Rightarrow> 'a list" where
  "first_occurrences [] = []"
| "first_occurrences (x # xs) = x # removeAll x (first_occurrences xs)"

text \<open>
  One entry per distinct key, in first-occurrence order; its targets are the projections of
  the rows with that key, in input order.
\<close>

definition spec_entry :: "'c row list \<Rightarrow> 'c \<times> 'c \<Rightarrow> 'c entry" where
  "spec_entry rows k =
     \<lparr>ParameterName = fst k, ParameterGroup = snd k,
      Targets = map row_target (filter (\<lambda>r. row_key r = k) rows)\<rparr>"

definition spec_grouping :: "'c row list \<Rightarrow> 'c entry list" where
  "spec_grouping rows = map (spec_entry rows) (first_occurrences (map row_key rows))"

section \<open>Exceptions\<close>

text \<open>
  The exceptions the code handles are subclasses of \<^verbatim>\<open>Exception\<close>: \<^verbatim>\<open>vkt.UserError\<close>, which the
  framework shows to the user, and any other one (an HTTP error, a failure inside the SDK).
  Each carries the text that \<^verbatim>\<open>str(e)\<close> returns. A call that may raise returns \<open>exn + 'a\<close>.
\<close>

datatype exn = UserError string | OtherException string

fun str_exn :: "exn \<Rightarrow> string" where
  "str_exn (UserError m) = m"
| "str_exn (OtherException m) = m"

fun is_UserError :: "exn \<Rightarrow> bool" where
  "is_UserError (UserError m) = True"
| "is_UserError (OtherException m) = False"

text \<open>Sequencing: the second computation runs only if the first one did not raise.\<close>

definition bind_exn :: "exn + 'a \<Rightarrow> ('a \<Rightarrow> exn + 'b) \<Rightarrow> exn + 'b" where
  "bind_exn r f = (case r of Inl e \<Rightarrow> Inl e | Inr v \<Rightarrow> f v)"

definition newline :: string where
  "newline = [CHR 0x0A]"

section \<open>The rows as dictionaries\<close>

text \<open>
  A row of the table is a Python dictionary from column names to cells, and the code reads it
  with subscripts, \<^verbatim>\<open>row["parameter_name"]\<close>. Here a dictionary is the list of its items, in
  the order in which they were inserted; \<open>getitem\<close> is the subscript, which raises \<^verbatim>\<open>KeyError\<close>
  for a missing key (\<^verbatim>\<open>str\<close> of a \<^verbatim>\<open>KeyError\<close> is the key in quotes).
\<close>

type_synonym 'c table_row = "(string \<times> 'c) list"

definition getitem :: "'c table_row \<Rightarrow> string \<Rightarrow> exn + 'c" where
  "getitem d k =
     (case map_of d k of
        None \<Rightarrow> Inl (OtherException ([CHR 0x27] @ k @ [CHR 0x27]))
      | Some v \<Rightarrow> Inr v)"

text \<open>
  The first loop (lines 386-392) on such rows, with its five subscripts in the order in which
  the code evaluates them.
\<close>

fun group_table_rows :: "(('c \<times> 'c) \<times> 'c target list) list \<Rightarrow> 'c table_row list
    \<Rightarrow> exn + (('c \<times> 'c) \<times> 'c target list) list" where
  "group_table_rows g [] = Inr g"
| "group_table_rows g (row # rest) =
     bind_exn (getitem row ''parameter_name'') (\<lambda>pname.
     bind_exn (getitem row ''parameter_group'') (\<lambda>pgroup.
     bind_exn (getitem row ''type_name'') (\<lambda>tname.
     bind_exn (getitem row ''family_name'') (\<lambda>fname.
     bind_exn (getitem row ''value'') (\<lambda>v.
     group_table_rows
       (grouped_append g (pname, pgroup) \<lparr>TypeName = tname, FamilyName = fname, Value = v\<rparr>)
       rest)))))"

text \<open>\<^verbatim>\<open>create_json_from_params\<close> (lines 376-403) on a table of dictionaries.\<close>

definition create_json_from_params_table :: "'c table_row list \<Rightarrow> exn + 'c entry list" where
  "create_json_from_params_table table =
     bind_exn (group_table_rows [] table) (\<lambda>grouped. Inr (map result_entry grouped))"

text \<open>
  Python's \<^verbatim>\<open>==\<close> on two dictionaries: the same keys with the same values, in whatever order
  the items were inserted; that is, every key of either dictionary is looked up with the same
  outcome in both. Two tables are equal when they have as many rows and the rows are equal
  one by one (\<open>list_all2 dict_eq\<close>).
\<close>

definition dict_eq :: "'c table_row \<Rightarrow> 'c table_row \<Rightarrow> bool" where
  "dict_eq d1 d2 = list_all (\<lambda>k. map_of d1 k = map_of d2 k) (map fst d1 @ map fst d2)"

text \<open>The dictionary of a row of five cells.\<close>

definition row_dict :: "'c row \<Rightarrow> 'c table_row" where
  "row_dict r =
     [(''parameter_name'', parameter_name r), (''parameter_group'', parameter_group r),
      (''type_name'', type_name r), (''family_name'', family_name r),
      (''value'', row_value r)]"

section \<open>The work item status\<close>

text \<open>
  What \<^verbatim>\<open>requests.get\<close> returns: \<^verbatim>\<open>raise_for_status()\<close> raises on a non-2xx answer, \<^verbatim>\<open>json()\<close>
  raises on a body that does not parse.
\<close>

record 'j http_response =
  raise_for_status :: "exn + unit"
  json :: "exn + 'j"

text \<open>
  The two keys the poll loop reads from the status document, with \<^verbatim>\<open>s.get(key)\<close>: \<open>None\<close> is
  Python's \<^verbatim>\<open>None\<close>, for a missing key or a JSON null. A document that is not an object makes
  \<^verbatim>\<open>s.get\<close> raise inside the loop, which leaves the loop as an exception of \<^verbatim>\<open>json()\<close> does.
\<close>

record status_response =
  status :: "string option"
  reportUrl :: "string option"

definition DA_V3 :: string where
  "DA_V3 = ''https://developer.api.autodesk.com/da/us-east/v3''"

definition bearer :: "string \<Rightarrow> (string \<times> string) list" where
  "bearer token = [(''Authorization'', ''Bearer '' @ token)]"

text \<open>
  \<^verbatim>\<open>get_workitem_status\<close> (lines 40-44). The network is a parameter: \<open>requests_get url headers\<close>
  is the outcome of the request.
\<close>

definition get_workitem_status ::
  "(string \<Rightarrow> (string \<times> string) list \<Rightarrow> exn + status_response http_response)
    \<Rightarrow> string \<Rightarrow> string \<Rightarrow> exn + status_response" where
  "get_workitem_status requests_get wi_id token =
     bind_exn (requests_get (DA_V3 @ ''/workitems/'' @ wi_id) (bearer token))
       (\<lambda>r. bind_exn (raise_for_status r) (\<lambda>_. json r))"

section \<open>The poll loop\<close>

definition poll_interval :: int where
  "poll_interval = 10"

definition max_wait :: int where
  "max_wait = 600"

text \<open>\<^verbatim>\<open>final_status in ("success", "failed", "cancelled")\<close>\<close>

definition terminal_status :: "string option \<Rightarrow> bool" where
  "terminal_status st =
     (st = Some ''success'' \<or> st = Some ''failed'' \<or> st = Some ''cancelled'')"

text \<open>
  The variables of the loop, and two counters that the code does not have: the calls of
  \<^verbatim>\<open>get_workitem_status\<close> and of \<^verbatim>\<open>time.sleep(poll_interval)\<close> made so far.
\<close>

record poll_state =
  elapsed :: int
  final_status :: "string option"
  report_url :: "string option"
  polls :: nat
  sleeps :: nat

text \<open>Lines 327-331 and 522-526.\<close>

definition poll_start :: poll_state where
  "poll_start = \<lparr>elapsed = 0, final_status = None, report_url = None, polls = 0, sleeps = 0\<rparr>"

text \<open>
  How the loop is left: by \<^verbatim>\<open>break\<close>, by its condition \<^verbatim>\<open>elapsed <= max_wait\<close> becoming false,
  or by an exception of \<^verbatim>\<open>get_workitem_status\<close>.
\<close>

datatype loop_exit = Break | Timeout | Raised exn

text \<open>
  The loop of lines 333-343, which lines 528-538 repeat word for word. \<open>poll k\<close> is the
  outcome of the call of \<^verbatim>\<open>get_workitem_status\<close> number \<open>k\<close> (from 0): the status endpoint may
  answer anything, at every call. The progress messages (lines 337-339) go to the user
  interface and are left out.
\<close>

function poll_loop :: "(nat \<Rightarrow> exn + status_response) \<Rightarrow> poll_state \<Rightarrow> loop_exit \<times> poll_state" where
  "poll_loop poll st =
     (if elapsed st \<le> max_wait then
        (case poll (polls st) of
           Inl e \<Rightarrow> (Raised e, st\<lparr>polls := Suc (polls st)\<rparr>)
         | Inr s \<Rightarrow>
             (if terminal_status (status s)
              then (Break, st\<lparr>final_status := status s, report_url := reportUrl s,
                              polls := Suc (polls st)\<rparr>)
              else poll_loop poll
                     (st\<lparr>final_status := status s, report_url := reportUrl s,
                         polls := Suc (polls st), sleeps := Suc (sleeps st),
                         elapsed := elapsed st + poll_interval\<rparr>)))
      else (Timeout, st))"
  by pat_completeness auto
termination
  by (relation "measure (\<lambda>(poll, st). nat (max_wait + 1 - elapsed st))")
     (auto simp: poll_interval_def)

declare poll_loop.simps [simp del]

text \<open>The f-string's rendering of \<^verbatim>\<open>final_status\<close>, and the truth value of \<^verbatim>\<open>report_url\<close>.\<close>

fun py_str :: "string option \<Rightarrow> string" where
  "py_str None = ''None''"
| "py_str (Some s) = s"

fun report_suffix :: "string option \<Rightarrow> string" where
  "report_suffix None = []"
| "report_suffix (Some u) = (if u = [] then [] else newline @ ''Report URL: '' @ u)"

text \<open>
  The message \<^verbatim>\<open>msg\<close> of lines 346-348 and 541-543; the two differ in their first words,
  \<open>lead\<close>.
\<close>

definition status_message :: "string \<Rightarrow> poll_state \<Rightarrow> string" where
  "status_message lead st = lead @ py_str (final_status st) @ report_suffix (report_url st)"

text \<open>The check after the loop (lines 345-349 and 540-544).\<close>

definition check_final_status :: "string \<Rightarrow> poll_state \<Rightarrow> exn + unit" where
  "check_final_status lead st =
     (if final_status st \<noteq> Some ''success''
      then Inl (UserError (status_message lead st))
      else Inr ())"

text \<open>The loop and the check together, as both workflows run them.\<close>

definition poll_until_done ::
  "string \<Rightarrow> (nat \<Rightarrow> exn + status_response) \<Rightarrow> exn + poll_state" where
  "poll_until_done lead poll =
     (case poll_loop poll poll_start of
        (Raised e, st) \<Rightarrow> Inl e
      | (ex, st) \<Rightarrow> bind_exn (check_final_status lead st) (\<lambda>_. Inr st))"

text \<open>
  What call number \<open>k\<close> of the status endpoint answered: a status that is not terminal, a
  terminal status; and that the loop variables hold the answer of call \<open>k\<close>.
\<close>

definition pending_at :: "(nat \<Rightarrow> exn + status_response) \<Rightarrow> nat \<Rightarrow> bool" where
  "pending_at poll k = (case poll k of Inl e \<Rightarrow> False | Inr s \<Rightarrow> \<not> terminal_status (status s))"

definition terminal_at :: "(nat \<Rightarrow> exn + status_response) \<Rightarrow> nat \<Rightarrow> bool" where
  "terminal_at poll k = (case poll k of Inl e \<Rightarrow> False | Inr s \<Rightarrow> terminal_status (status s))"

definition answer_at :: "(nat \<Rightarrow> exn + status_response) \<Rightarrow> nat \<Rightarrow> poll_state \<Rightarrow> bool" where
  "answer_at poll k st =
     (case poll k of Inl e \<Rightarrow> False
      | Inr s \<Rightarrow> final_status st = status s \<and> report_url st = reportUrl s)"

section \<open>The two workflows\<close>

text \<open>The form data the controller reads (the \<^verbatim>\<open>Parametrization\<close>, lines 85-140).\<close>

record autodesk_file =
  project_id :: string
  urn :: string

text \<open>
  A version of a file: its URN and, of its \<^verbatim>\<open>attributes\<close>, the entry \<^verbatim>\<open>displayName\<close>, which the
  dictionary may lack (\<open>None\<close>) or hold with the value \<^verbatim>\<open>None\<close> (\<open>Some None\<close>) or with a string.
\<close>

record file_version =
  urn_of_version :: string
  displayName :: "string option option"

record 'c params =
  input_file :: "autodesk_file option"
  targets :: "'c row list"
  output_file :: "autodesk_file option"
  selected_views_for_ifc :: "string list"

text \<open>
  The content of the JSON parameter of a work item: the grouped type parameters, or the IFC
  settings that \<^verbatim>\<open>create_ifc_export_json\<close> builds.
\<close>

datatype ('c, 'j) config = TypeParams "'c entry list" | IfcSettings 'j

text \<open>
  A work item: the input file, the JSON configuration, the output file and the activity.
  The constant fields of the three parameters (names, local names, verbs, descriptions) are
  left out.
\<close>

record ('c, 'j) workitem =
  rvtFile :: autodesk_file
  configJson :: "('c, 'j) config"
  result_folder_id :: string
  result_file_name :: string
  activity_full_alias :: string

text \<open>
  Everything outside the controller is a field of \<open>services\<close>: the OAuth2 integration and the
  file API of the framework, the SDK, the network, and the functions and the constant that
  the controller imports from \<^verbatim>\<open>app.helpers\<close>. Each call returns a value or raises.
  \<open>get_access_token k\<close> and \<open>requests_get k\<close> are the outcomes of the \<open>k\<close>-th call (from 0) of
  \<^verbatim>\<open>OAuth2Integration(...).get_access_token()\<close> and of the status request. \<open>format_exc e\<close> is the
  text \<^verbatim>\<open>traceback.format_exc()\<close> returns while \<open>e\<close> is handled.
\<close>

record ('m, 'c, 'j) services =
  get_access_token :: "nat \<Rightarrow> exn + string"
  get_latest_version :: "autodesk_file \<Rightarrow> string \<Rightarrow> exn + file_version"
  fetch_manifest :: "autodesk_file \<Rightarrow> string \<Rightarrow> exn + 'm"
  get_revit_version_from_manifest :: "'m \<Rightarrow> exn + string option"
  DEFAULT_REVIT_VERSION :: string
  get_type_parameters_signature :: "string \<Rightarrow> exn + string \<times> string"
  get_ifc_export_signature :: "string \<Rightarrow> exn + string \<times> string"
  create_ifc_export_json :: "string list \<Rightarrow> exn + 'j"
  parent_folder_from_item :: "string \<Rightarrow> string \<Rightarrow> string \<Rightarrow> exn + string"
  set_content :: "('c, 'j) config \<Rightarrow> exn + unit"
  uuid4_hex :: string
  run_public_activity :: "('c, 'j) workitem \<Rightarrow> string \<Rightarrow> string \<Rightarrow> exn + string"
  requests_get :: "nat \<Rightarrow> string \<Rightarrow> (string \<times> string) list
                    \<Rightarrow> exn + status_response http_response"
  create_acc_item :: "('c, 'j) workitem \<Rightarrow> string \<Rightarrow> exn + unit"
  format_exc :: "exn \<Rightarrow> string"
  urlsafe_b64encode :: "string \<Rightarrow> string"
  requests_get_manifest :: "string \<Rightarrow> (string \<times> string) list \<Rightarrow> exn + 'm http_response"
  get_view_names_from_manifest :: "'m \<Rightarrow> exn + string list"

text \<open>
  The inner \<^verbatim>\<open>try\<close> of lines 241-251 and 433-443: the version read from the manifest, or the
  default when none is found or anything raises. It never raises.
\<close>

definition detect_revit_version ::
  "('m, 'c, 'j) services \<Rightarrow> autodesk_file \<Rightarrow> string \<Rightarrow> string" where
  "detect_revit_version sv file access_token =
     (case bind_exn (fetch_manifest sv file access_token) (get_revit_version_from_manifest sv) of
        Inl e \<Rightarrow> DEFAULT_REVIT_VERSION sv
      | Inr None \<Rightarrow> DEFAULT_REVIT_VERSION sv
      | Inr (Some v) \<Rightarrow> (if v = [] then DEFAULT_REVIT_VERSION sv else v))"

text \<open>
  \<^verbatim>\<open>attrs.get("displayName", "model")\<close>: the default stands in for a missing key only. The file
  names are f-strings, so a \<^verbatim>\<open>None\<close> held under the key is rendered as "None".
\<close>

fun display_name :: "file_version \<Rightarrow> string option" where
  "display_name v = (case displayName v of None \<Rightarrow> Some ''model'' | Some n \<Rightarrow> n)"

text \<open>The status requests of one work item, as the poll loop sees them.\<close>

definition workitem_polls ::
  "('m, 'c, 'j) services \<Rightarrow> string \<Rightarrow> string \<Rightarrow> nat \<Rightarrow> exn + status_response" where
  "workitem_polls sv workitem_id access_token k =
     get_workitem_status (requests_get sv k) workitem_id access_token"

text \<open>What the success message of \<^verbatim>\<open>process_with_workitem\<close> reports (lines 359-367).\<close>

record automation_report =
  configurations :: nat
  total_targets :: nat
  workitem_id :: string
  report :: string

text \<open>What the success message of \<^verbatim>\<open>export_to_ifc\<close> reports (lines 554-562).\<close>

record export_report =
  exported_views :: "string list"
  export_workitem_id :: string
  export_report_tail :: string

text \<open>
  The first part of the \<^verbatim>\<open>try\<close> of \<^verbatim>\<open>process_with_workitem\<close>, lines 222-323, up to the
  submission of the work item: it yields the configuration, the work item and the id under
  which the service runs it.
\<close>

definition process_submit ::
  "('m, 'c, 'j) services \<Rightarrow> 'c params \<Rightarrow> string
     \<Rightarrow> exn + 'c entry list \<times> ('c, 'j) workitem \<times> string" where
  "process_submit sv params access_token =
     (case input_file params of
        None \<Rightarrow> Inl (UserError ''Please select an input Revit file'')
      | Some rvt_file \<Rightarrow>
          bind_exn (get_access_token sv 1) (\<lambda>token.
          bind_exn (get_latest_version sv rvt_file token) (\<lambda>version.
          bind_exn (get_type_parameters_signature sv
                      (detect_revit_version sv rvt_file access_token)) (\<lambda>(signature, alias).
          bind_exn (parent_folder_from_item sv (project_id rvt_file) (urn rvt_file) access_token)
            (\<lambda>folder_id.
          let type_params_config = create_json_from_params (targets params) in
          bind_exn (set_content sv (TypeParams type_params_config)) (\<lambda>_.
          let workitem =
               \<lparr>rvtFile = rvt_file, configJson = TypeParams type_params_config,
                result_folder_id = folder_id,
                result_file_name =
                  py_str (display_name version) @ ''_'' @ take 8 (uuid4_hex sv) @ ''.rvt'',
                activity_full_alias = alias\<rparr> in
          bind_exn (run_public_activity sv workitem access_token signature) (\<lambda>wi_id.
          Inr (type_params_config, workitem, wi_id))))))))"

text \<open>
  The body of the \<^verbatim>\<open>try\<close> of \<^verbatim>\<open>process_with_workitem\<close>, lines 222-369: the submission, the
  poll loop with its check (lines 325-349), the creation of the ACC item (line 355) and the
  success message.
\<close>

definition process_body ::
  "('m, 'c, 'j) services \<Rightarrow> 'c params \<Rightarrow> string \<Rightarrow> exn + automation_report" where
  "process_body sv params access_token =
     bind_exn (process_submit sv params access_token) (\<lambda>(type_params_config, workitem, wi_id).
     bind_exn (poll_until_done ''Automation did not finish with success. Status: ''
                 (workitem_polls sv wi_id access_token)) (\<lambda>st.
     bind_exn (create_acc_item sv workitem access_token) (\<lambda>_.
     Inr \<lparr>configurations = length type_params_config,
          total_targets = sum_list (map (\<lambda>p. length (Targets p)) type_params_config),
          workitem_id = wi_id,
          report = report_suffix (report_url st)\<rparr>)))"

text \<open>
  \<^verbatim>\<open>process_with_workitem\<close> (lines 212-374): the access token is fetched before the \<^verbatim>\<open>try\<close>; the
  handler of the \<^verbatim>\<open>try\<close>, \<^verbatim>\<open>except Exception\<close>, turns what the body raises into one
  \<^verbatim>\<open>vkt.UserError\<close>.
\<close>

definition process_with_workitem ::
  "('m, 'c, 'j) services \<Rightarrow> 'c params \<Rightarrow> exn + automation_report" where
  "process_with_workitem sv params =
     bind_exn (get_access_token sv 0) (\<lambda>access_token.
       case process_body sv params access_token of
         Inl e \<Rightarrow>
           Inl (UserError (''Error in Automation workflow: '' @ str_exn e @ newline @ newline
                           @ ''Details:'' @ newline @ format_exc sv e))
       | Inr r \<Rightarrow> Inr r)"

text \<open>
  The first part of the \<^verbatim>\<open>try\<close> of \<^verbatim>\<open>export_to_ifc\<close>, lines 415-517, up to the submission of
  the work item.
\<close>

definition export_submit ::
  "('m, 'c, 'j) services \<Rightarrow> 'c params \<Rightarrow> string \<Rightarrow> exn + ('c, 'j) workitem \<times> string" where
  "export_submit sv params access_token =
     (case output_file params of
        None \<Rightarrow>
          Inl (UserError (''Please select the updated Revit file in the '' @ [CHR 0x27]
                          @ ''View Updated Model'' @ [CHR 0x27] @ '' section''))
      | Some rvt_file \<Rightarrow>
          if selected_views_for_ifc params = []
          then Inl (UserError ''Please select at least one view to export to IFC.'')
          else
            bind_exn (get_ifc_export_signature sv
                        (detect_revit_version sv rvt_file access_token)) (\<lambda>(signature, alias).
            bind_exn (parent_folder_from_item sv (project_id rvt_file) (urn rvt_file)
                        access_token) (\<lambda>folder_id.
            bind_exn (create_ifc_export_json sv (selected_views_for_ifc params)) (\<lambda>ifc_config.
            bind_exn (set_content sv (IfcSettings ifc_config)) (\<lambda>_.
            bind_exn (get_latest_version sv rvt_file access_token) (\<lambda>version.
            let workitem =
                 \<lparr>rvtFile = rvt_file, configJson = IfcSettings ifc_config,
                  result_folder_id = folder_id,
                  result_file_name =
                    py_str (display_name version) @ ''_IFC_'' @ take 8 (uuid4_hex sv)
                      @ ''.zip'',
                  activity_full_alias = alias\<rparr> in
            bind_exn (run_public_activity sv workitem access_token signature) (\<lambda>wi_id.
            Inr (workitem, wi_id))))))))"

text \<open>
  The body of the \<^verbatim>\<open>try\<close> of \<^verbatim>\<open>export_to_ifc\<close>, lines 415-564: the submission, the poll loop
  with its check (lines 520-544), the creation of the ACC item (line 550) and the success
  message.
\<close>

definition export_body ::
  "('m, 'c, 'j) services \<Rightarrow> 'c params \<Rightarrow> string \<Rightarrow> exn + export_report" where
  "export_body sv params access_token =
     bind_exn (export_submit sv params access_token) (\<lambda>(workitem, wi_id).
     bind_exn (poll_until_done ''IFC export did not finish with success. Status: ''
                 (workitem_polls sv wi_id access_token)) (\<lambda>st.
     bind_exn (create_acc_item sv workitem access_token) (\<lambda>_.
     Inr \<lparr>exported_views = selected_views_for_ifc params,
          export_workitem_id = wi_id,
          export_report_tail = report_suffix (report_url st)\<rparr>)))"

text \<open>\<^verbatim>\<open>export_to_ifc\<close> (lines 405-569), built like \<^verbatim>\<open>process_with_workitem\<close>.\<close>

definition export_to_ifc ::
  "('m, 'c, 'j) services \<Rightarrow> 'c params \<Rightarrow> exn + export_report" where
  "export_to_ifc sv params =
     bind_exn (get_access_token sv 0) (\<lambda>access_token.
       case export_body sv params access_token of
         Inl e \<Rightarrow>
           Inl (UserError (''Error in IFC Export workflow: '' @ str_exn e @ newline @ newline
                           @ ''Details:'' @ newline @ format_exc sv e))
       | Inr r \<Rightarrow> Inr r)"

section \<open>The view names of a file\<close>

text \<open>
  The calls that reach an external service. The two functions below pass the list of the
  calls made so far along and return it extended; the outcome of a call may depend on how
  many calls came before it.
\<close>

datatype call = AccessToken | LatestVersion autodesk_file | HttpGet string

text \<open>\<^verbatim>\<open>.rstrip("=")\<close>\<close>

definition rstrip_eq :: "string \<Rightarrow> string" where
  "rstrip_eq s = rev (dropWhile (\<lambda>c. c = CHR ''='') (rev s))"

definition manifest_url :: "('m, 'c, 'j) services \<Rightarrow> string \<Rightarrow> string" where
  "manifest_url sv version_urn =
     ''https://developer.api.autodesk.com/modelderivative/v2/designdata/''
       @ rstrip_eq (urlsafe_b64encode sv version_urn) @ ''/manifest''"

text \<open>The body of the \<^verbatim>\<open>try\<close> of \<^verbatim>\<open>get_view_names_for_file\<close>, lines 54-62.\<close>

definition view_names_body ::
  "('m, 'c, 'j) services \<Rightarrow> string \<Rightarrow> call list \<Rightarrow> (exn + string list) \<times> call list" where
  "view_names_body sv version_urn calls =
     (case get_access_token sv (length calls) of
        Inl e \<Rightarrow> (Inl e, calls @ [AccessToken])
      | Inr token \<Rightarrow>
          (bind_exn (requests_get_manifest sv (manifest_url sv version_urn)
                       [(''Authorization'', ''Bearer '' @ token)])
             (\<lambda>resp. bind_exn (raise_for_status resp)
             (\<lambda>_. bind_exn (json resp) (get_view_names_from_manifest sv))),
           calls @ [AccessToken, HttpGet (manifest_url sv version_urn)]))"

text \<open>
  \<^verbatim>\<open>get_view_names_for_file\<close> (lines 47-65), the function that \<^verbatim>\<open>vkt.memoize\<close> decorates: the
  handler answers every exception of the body with the empty list.
\<close>

definition get_view_names_for_file ::
  "('m, 'c, 'j) services \<Rightarrow> string \<Rightarrow> call list \<Rightarrow> (exn + string list) \<times> call list" where
  "get_view_names_for_file sv version_urn calls =
     (case view_names_body sv version_urn calls of
        (Inl e, calls') \<Rightarrow> (Inr [], calls')
      | (Inr names, calls') \<Rightarrow> (Inr names, calls'))"

record option_list_element =
  label :: string
  element_value :: string

text \<open>\<^verbatim>\<open>get_view_names_options\<close> (lines 68-82).\<close>

definition get_view_names_options ::
  "('m, 'c, 'j) services \<Rightarrow> 'c params \<Rightarrow> call list
     \<Rightarrow> (exn + option_list_element list) \<times> call list" where
  "get_view_names_options sv params calls =
     (case output_file params of
        None \<Rightarrow> (Inr [], calls)
      | Some autodesk_file \<Rightarrow>
          (case get_access_token sv (length calls) of
             Inl e \<Rightarrow> (Inl e, calls @ [AccessToken])
           | Inr token \<Rightarrow>
               (case get_latest_version sv autodesk_file token of
                  Inl e \<Rightarrow> (Inl e, calls @ [AccessToken, LatestVersion autodesk_file])
                | Inr version \<Rightarrow>
                    (case get_view_names_for_file sv (urn_of_version version)
                            (calls @ [AccessToken, LatestVersion autodesk_file]) of
                       (Inl e, calls') \<Rightarrow> (Inl e, calls')
                     | (Inr view_names, calls') \<Rightarrow>
                         (Inr (map (\<lambda>name. \<lparr>label = name, element_value = name\<rparr>) view_names),
                          calls')))))"

section \<open>A sample run\<close>

text \<open>
  Services that answer every call: the work item is in progress at the first two status
  requests and has failed at the third, with a report.
\<close>

definition sample_services :: "(string list, string, string list) services" where
  "sample_services =
     \<lparr>get_access_token = (\<lambda>k. Inr ''token''),
      get_latest_version =
        (\<lambda>file token. Inr \<lparr>urn_of_version = ''urn:version:1'', displayName = Some (Some ''tower'')\<rparr>),
      fetch_manifest = (\<lambda>file token. Inr [''3D'', ''Level 1'']),
      get_revit_version_from_manifest = (\<lambda>manifest. Inr (Some ''2024'')),
      DEFAULT_REVIT_VERSION = ''2023'',
      get_type_parameters_signature = (\<lambda>v. Inr (''signature'', ''owner.TypeParams+prod'')),
      get_ifc_export_signature = (\<lambda>v. Inr (''signature'', ''owner.IfcExport+prod'')),
      create_ifc_export_json = (\<lambda>views. Inr views),
      parent_folder_from_item = (\<lambda>project item token. Inr ''folder''),
      set_content = (\<lambda>content. Inr ()),
      uuid4_hex = ''0123456789abcdef0123456789abcdef'',
      run_public_activity = (\<lambda>workitem token signature. Inr ''wi1''),
      requests_get =
        (\<lambda>k url headers.
           Inr \<lparr>raise_for_status = Inr (),
                json = Inr \<lparr>status = Some (if k < 2 then ''inprogress'' else ''failed''),
                            reportUrl = Some ''https://report''\<rparr>\<rparr>),
      create_acc_item = (\<lambda>workitem token. Inr ()),
      format_exc = (\<lambda>e. ''Traceback (most recent call last): '' @ str_exn e),
      urlsafe_b64encode = (\<lambda>s. s),
      requests_get_manifest =
        (\<lambda>url headers. Inr \<lparr>raise_for_status = Inr (), json = Inr [''3D'', ''Level 1'']\<rparr>),
      get_view_names_from_manifest = (\<lambda>manifest. Inr manifest)\<rparr>"

definition sample_file :: autodesk_file where
  "sample_file = \<lparr>project_id = ''b.project'', urn = ''urn:lineage:1''\<rparr>"

definition sample_params :: "string params" where
  "sample_params =
     \<lparr>input_file = Some sample_file,
      targets = [\<lparr>parameter_name = ''Carbon'', parameter_group = ''PG_DATA'',
                  type_name = ''400x400mm'', family_name = ''Pile'', row_value = ''95''\<rparr>],
      output_file = Some sample_file,
      selected_views_for_ifc = [''3D'']\<rparr>"

text \<open>The same services, but no access token can be had.\<close>

definition failing_token_services :: "(string list, string, string list) services" where
  "failing_token_services =
     sample_services\<lparr>get_access_token := (\<lambda>k. Inl (OtherException ''token request failed''))\<rparr>"

text \<open>
  Services whose work item has succeeded at the first status request, but which cannot
  create the ACC item for the output.
\<close>

definition acc_item_failing_services :: "(string list, string, string list) services" where
  "acc_item_failing_services =
     sample_services
       \<lparr>requests_get :=
          (\<lambda>k url headers.
             Inr \<lparr>raise_for_status = Inr (),
                  json = Inr \<lparr>status = Some ''success'', reportUrl = None\<rparr>\<rparr>),
        create_acc_item := (\<lambda>workitem token. Inl (OtherException ''403 Forbidden''))\<rparr>"

text \<open>Status answers: in progress at the calls before \<open>n\<close>, then \<open>final\<close>.\<close>

definition answers_after :: "nat \<Rightarrow> string \<Rightarrow> nat \<Rightarrow> exn + status_response" where
  "answers_after n final k =
     Inr \<lparr>status = Some (if k < n then ''inprogress'' else final), reportUrl = None\<rparr>"

section \<open>Properties of the grouping\<close>

lemma set_first_occurrences: "set (first_occurrences xs) = set xs"
  by (induction xs) auto

lemma distinct_first_occurrences: "distinct (first_occurrences xs)"
  by (induction xs) (auto simp: distinct_removeAll)

lemma remdups_snoc: "remdups (ys @ [x]) = removeAll x (remdups ys) @ [x]"
  by (induction ys) auto

lemma first_occurrences_remdups: "first_occurrences xs = rev (remdups (rev xs))"
  by (induction xs) (simp_all add: remdups_snoc removeAll_filter_not_eq rev_filter)

lemma keys_grouped_append:
  "map fst (grouped_append g k t) = (if k \<in> fst ` set g then map fst g else map fst g @ [k])"
  by (induction g k t rule: grouped_append.induct) auto

lemma keyset_grouped_append:
  "fst ` set (grouped_append g k t) = insert k (fst ` set g)"
  by (induction g k t rule: grouped_append.induct) auto

lemma map_of_grouped_append:
  "map_of (grouped_append g k t) k' =
     (if k' = k then Some ((case map_of g k of None \<Rightarrow> [] | Some ts \<Rightarrow> ts) @ [t])
      else map_of g k')"
  by (induction g k t rule: grouped_append.induct) auto

lemma keys_group_rows:
  "map fst (group_rows g rows) =
     map fst g @ filter (\<lambda>k. k \<notin> fst ` set g) (first_occurrences (map row_key rows))"
proof (induction rows arbitrary: g)
  case Nil
  show ?case by simp
next
  case (Cons r rs)
  let ?k = "row_key r"
  let ?ks = "first_occurrences (map row_key rs)"
  show ?case
  proof (cases "?k \<in> fst ` set g")
    case True
    then have "filter (\<lambda>k. k \<notin> fst ` set g) (removeAll ?k ?ks)
        = filter (\<lambda>k. k \<notin> fst ` set g) ?ks"
      by (auto simp: removeAll_filter_not_eq intro: filter_cong)
    with True show ?thesis
      by (simp add: Cons.IH keys_grouped_append keyset_grouped_append insert_absorb)
  next
    case False
    have "filter (\<lambda>k. k \<notin> insert ?k (fst ` set g)) ?ks
        = filter (\<lambda>k. k \<notin> fst ` set g) (removeAll ?k ?ks)"
      by (auto simp: removeAll_filter_not_eq intro: filter_cong)
    then show ?thesis
      using False by (simp add: Cons.IH keys_grouped_append keyset_grouped_append)
  qed
qed

lemma map_of_group_rows:
  "map_of (group_rows g rows) k =
     (case map_of g k of
        None \<Rightarrow> (if k \<in> row_key ` set rows
                 then Some (map row_target (filter (\<lambda>r. row_key r = k) rows)) else None)
      | Some ts \<Rightarrow> Some (ts @ map row_target (filter (\<lambda>r. row_key r = k) rows)))"
proof (induction rows arbitrary: g)
  case Nil
  show ?case by (simp split: option.splits)
next
  case (Cons r rs)
  show ?case
    by (auto simp: Cons.IH map_of_grouped_append split: option.splits)
qed

lemma distinct_alist_eq:
  assumes "distinct (map fst g)"
  shows "map (\<lambda>k. (k, the (map_of g k))) (map fst g) = g"
proof -
  have "map (\<lambda>q. (fst q, the (map_of g (fst q)))) g = g"
  proof (rule map_idI)
    fix q assume "q \<in> set g"
    with assms have "map_of g (fst q) = Some (snd q)"
      by (cases q) simp
    then show "(fst q, the (map_of g (fst q))) = q"
      by simp
  qed
  then show ?thesis
    by (simp add: o_def)
qed

lemma group_rows_empty:
  "group_rows [] rows =
     map (\<lambda>k. (k, map row_target (filter (\<lambda>r. row_key r = k) rows)))
       (first_occurrences (map row_key rows))"
proof -
  let ?g = "group_rows [] rows"
  have keys: "map fst ?g = first_occurrences (map row_key rows)"
    by (simp add: keys_group_rows)
  then have "distinct (map fst ?g)"
    by (simp add: distinct_first_occurrences)
  then have "?g = map (\<lambda>k. (k, the (map_of ?g k))) (map fst ?g)"
    by (rule distinct_alist_eq [symmetric])
  also have "\<dots> = map (\<lambda>k. (k, map row_target (filter (\<lambda>r. row_key r = k) rows)))
      (first_occurrences (map row_key rows))"
    unfolding keys
    by (rule map_cong) (auto simp: map_of_group_rows set_first_occurrences)
  finally show ?thesis .
qed

lemma create_json_from_params_spec: "create_json_from_params rows = spec_grouping rows"
  by (simp add: create_json_from_params_def spec_grouping_def group_rows_empty
      result_entry_def spec_entry_def o_def)

lemma entry_key_spec_entry: "entry_key (spec_entry rows k) = k"
  by (simp add: entry_key_def spec_entry_def)

lemma keys_create_json_from_params:
  "map entry_key (create_json_from_params rows) = first_occurrences (map row_key rows)"
  by (simp add: create_json_from_params_spec spec_grouping_def o_def entry_key_spec_entry)

lemma targets_grouped_append:
  "sum_list (map (\<lambda>item. length (snd item)) (grouped_append g k t))
     = Suc (sum_list (map (\<lambda>item. length (snd item)) g))"
  by (induction g k t rule: grouped_append.induct) auto

lemma targets_group_rows:
  "sum_list (map (\<lambda>item. length (snd item)) (group_rows g rows))
     = sum_list (map (\<lambda>item. length (snd item)) g) + length rows"
  by (induction rows arbitrary: g) (simp_all add: targets_grouped_append)

lemma nonempty_grouped_append:
  "\<forall>item \<in> set g. snd item \<noteq> [] \<Longrightarrow> \<forall>item \<in> set (grouped_append g k t). snd item \<noteq> []"
  by (induction g k t rule: grouped_append.induct) auto

lemma nonempty_group_rows:
  "\<forall>item \<in> set g. snd item \<noteq> [] \<Longrightarrow> \<forall>item \<in> set (group_rows g rows). snd item \<noteq> []"
proof (induction rows arbitrary: g)
  case Nil
  then show ?case by simp
next
  case (Cons r rs)
  from Cons.prems have "\<forall>item \<in> set (grouped_append g (row_key r) (row_target r)). snd item \<noteq> []"
    by (rule nonempty_grouped_append)
  then show ?case
    using Cons.IH by simp
qed

lemma total_create_json_from_params:
  "sum_list (map (\<lambda>p. length (Targets p)) (create_json_from_params rows)) = length rows"
proof -
  have "sum_list (map (\<lambda>p. length (Targets p)) (create_json_from_params rows))
      = sum_list (map (\<lambda>item. length (snd item)) (group_rows [] rows))"
    by (simp add: create_json_from_params_def result_entry_def o_def)
  then show ?thesis
    by (simp add: targets_group_rows)
qed

section \<open>The claims about the grouping\<close>

text \<open>
  C1. For every list of table rows, \<^verbatim>\<open>create_json_from_params\<close> groups by (parameter name,
  parameter group): the result is the grouping as the specification words it; its keys are
  the distinct keys of the rows, each once, in the order of their first occurrence; and the
  \<^verbatim>\<open>Targets\<close> of each entry are the \<^verbatim>\<open>{TypeName, FamilyName, Value}\<close> projections of exactly the
  rows that have the entry's key, in input order.
\<close>

theorem create_json_from_params_groups_by_key:
  "create_json_from_params rows = spec_grouping rows
   \<and> map entry_key (create_json_from_params rows) = first_occurrences (map row_key rows)
   \<and> map entry_key (create_json_from_params rows) = rev (remdups (rev (map row_key rows)))
   \<and> distinct (map entry_key (create_json_from_params rows))
   \<and> set (map entry_key (create_json_from_params rows)) = set (map row_key rows)
   \<and> (\<forall>e \<in> set (create_json_from_params rows).
         Targets e = map row_target (filter (\<lambda>r. row_key r = entry_key e) rows))"
proof -
  have keys: "map entry_key (create_json_from_params rows) = first_occurrences (map row_key rows)"
    by (rule keys_create_json_from_params)
  have "\<forall>e \<in> set (spec_grouping rows).
      Targets e = map row_target (filter (\<lambda>r. row_key r = entry_key e) rows)"
    by (auto simp: spec_grouping_def entry_key_spec_entry) (simp add: spec_entry_def)
  then show ?thesis
    unfolding keys
    by (simp add: create_json_from_params_spec distinct_first_occurrences
        set_first_occurrences first_occurrences_remdups [symmetric])
qed

text \<open>
  Three rows with two distinct keys: the first and the third row share the key
  (Carbon, PG_DATA), and their targets are collected in one entry, in input order.
\<close>

theorem create_json_from_params_groups_by_key_witness:
  "create_json_from_params
     [\<lparr>parameter_name = ''Carbon'', parameter_group = ''PG_DATA'', type_name = ''400x400mm'',
        family_name = ''Pile'', row_value = ''95''\<rparr>,
      \<lparr>parameter_name = ''Carbon'', parameter_group = ''PG_TEXT'', type_name = ''Wall200'',
        family_name = ''Wall'', row_value = ''12''\<rparr>,
      \<lparr>parameter_name = ''Carbon'', parameter_group = ''PG_DATA'', type_name = ''500x500mm'',
        family_name = ''Pile'', row_value = ''97''\<rparr>]
   = [\<lparr>ParameterName = ''Carbon'', ParameterGroup = ''PG_DATA'',
       Targets = [\<lparr>TypeName = ''400x400mm'', FamilyName = ''Pile'', Value = ''95''\<rparr>,
                  \<lparr>TypeName = ''500x500mm'', FamilyName = ''Pile'', Value = ''97''\<rparr>]\<rparr>,
      \<lparr>ParameterName = ''Carbon'', ParameterGroup = ''PG_TEXT'',
       Targets = [\<lparr>TypeName = ''Wall200'', FamilyName = ''Wall'', Value = ''12''\<rparr>]\<rparr>]"
  using create_json_from_params_groups_by_key [of
     "[\<lparr>parameter_name = ''Carbon'', parameter_group = ''PG_DATA'', type_name = ''400x400mm'',
        family_name = ''Pile'', row_value = ''95''\<rparr>,
      \<lparr>parameter_name = ''Carbon'', parameter_group = ''PG_TEXT'', type_name = ''Wall200'',
        family_name = ''Wall'', row_value = ''12''\<rparr>,
      \<lparr>parameter_name = ''Carbon'', parameter_group = ''PG_DATA'', type_name = ''500x500mm'',
        family_name = ''Pile'', row_value = ''97''\<rparr>]"]
  by (simp add: spec_grouping_def spec_entry_def row_key_def row_target_def)

lemma dict_eq_map_of:
  assumes "dict_eq d1 d2"
  shows "map_of d1 k = map_of d2 k"
proof (cases "k \<in> set (map fst d1 @ map fst d2)")
  case True
  with assms show ?thesis
    unfolding dict_eq_def list_all_iff by blast
next
  case False
  then have "map_of d1 k = None" "map_of d2 k = None"
    by (simp_all add: map_of_eq_None_iff)
  then show ?thesis by simp
qed

lemma dict_eq_getitem: "dict_eq d1 d2 \<Longrightarrow> getitem d1 k = getitem d2 k"
  by (simp add: getitem_def dict_eq_map_of [of d1 d2 k])

lemma group_table_rows_dict_eq:
  "list_all2 dict_eq table1 table2 \<Longrightarrow> group_table_rows g table1 = group_table_rows g table2"
proof (induction table1 table2 arbitrary: g rule: list_all2_induct)
  case Nil
  show ?case by simp
next
  case (Cons d1 t1 d2 t2)
  have "\<And>k. getitem d1 k = getitem d2 k"
    using Cons.hyps(1) by (rule dict_eq_getitem)
  then show ?case
    by (simp add: Cons.IH)
qed

lemma getitem_row_dict:
  "getitem (row_dict r) ''parameter_name'' = Inr (parameter_name r)"
  "getitem (row_dict r) ''parameter_group'' = Inr (parameter_group r)"
  "getitem (row_dict r) ''type_name'' = Inr (type_name r)"
  "getitem (row_dict r) ''family_name'' = Inr (family_name r)"
  "getitem (row_dict r) ''value'' = Inr (row_value r)"
  by (simp_all add: getitem_def row_dict_def)

lemma group_table_rows_row_dict:
  "group_table_rows g (map row_dict rows) = Inr (group_rows g rows)"
  by (induction rows arbitrary: g)
     (simp_all add: getitem_row_dict bind_exn_def row_key_def row_target_def)

lemma create_json_from_params_table_row_dict:
  "create_json_from_params_table (map row_dict rows) = Inr (create_json_from_params rows)"
  by (simp add: create_json_from_params_table_def group_table_rows_row_dict bind_exn_def
      create_json_from_params_def)

lemma create_json_from_params_table_KeyError:
  "create_json_from_params_table [[(''parameter_name'', ''A'')]]
     = Inl (OtherException ([CHR 0x27] @ ''parameter_group'' @ [CHR 0x27]))"
  by (simp add: create_json_from_params_table_def getitem_def bind_exn_def)

text \<open>
  C6. \<^verbatim>\<open>create_json_from_params\<close> is deterministic: two runs on equal tables return equal
  results. The tables are equal as Python compares them: as many rows, and each row equal to
  its counterpart as a dictionary, whatever the order of its items. In particular every
  table that is equal to the dictionaries of the rows \<open>rows\<close> gives the entries, the targets and
  the order of \<open>create_json_from_params rows\<close>.
\<close>

theorem create_json_from_params_deterministic:
  "list_all2 dict_eq table1 table2 \<Longrightarrow>
     create_json_from_params_table table1 = create_json_from_params_table table2
     \<and> (\<forall>rows. list_all2 dict_eq table1 (map row_dict rows) \<longrightarrow>
           create_json_from_params_table table1 = Inr (create_json_from_params rows)
           \<and> create_json_from_params_table table2 = Inr (create_json_from_params rows))"
proof -
  assume eq: "list_all2 dict_eq table1 table2"
  then have same: "create_json_from_params_table table1 = create_json_from_params_table table2"
    by (simp add: create_json_from_params_table_def group_table_rows_dict_eq [of table1 table2])
  have "\<forall>rows. list_all2 dict_eq table1 (map row_dict rows) \<longrightarrow>
      create_json_from_params_table table1 = Inr (create_json_from_params rows)"
  proof (intro allI impI)
    fix rows :: "'a row list"
    assume "list_all2 dict_eq table1 (map row_dict rows)"
    then have "create_json_from_params_table table1
        = create_json_from_params_table (map row_dict rows)"
      by (simp add: create_json_from_params_table_def
          group_table_rows_dict_eq [of table1 "map row_dict rows"])
    then show "create_json_from_params_table table1 = Inr (create_json_from_params rows)"
      by (simp add: create_json_from_params_table_row_dict)
  qed
  with same show ?thesis
    by simp
qed

text \<open>
  Two tables of three rows with two keys; the rows are equal one by one, with their items in
  different orders.
\<close>

theorem create_json_from_params_deterministic_witness:
  "create_json_from_params_table
     [[(''value'', ''95''), (''family_name'', ''Pile''), (''type_name'', ''400x400mm''),
       (''parameter_group'', ''PG_DATA''), (''parameter_name'', ''Carbon'')],
      [(''parameter_name'', ''Carbon''), (''parameter_group'', ''PG_TEXT''),
       (''type_name'', ''Wall200''), (''family_name'', ''Wall''), (''value'', ''12'')],
      [(''type_name'', ''500x500mm''), (''parameter_name'', ''Carbon''), (''value'', ''97''),
       (''parameter_group'', ''PG_DATA''), (''family_name'', ''Pile'')]]
   = create_json_from_params_table
     [[(''parameter_name'', ''Carbon''), (''parameter_group'', ''PG_DATA''),
       (''type_name'', ''400x400mm''), (''family_name'', ''Pile''), (''value'', ''95'')],
      [(''value'', ''12''), (''parameter_name'', ''Carbon''), (''parameter_group'', ''PG_TEXT''),
       (''type_name'', ''Wall200''), (''family_name'', ''Wall'')],
      [(''parameter_name'', ''Carbon''), (''parameter_group'', ''PG_DATA''),
       (''type_name'', ''500x500mm''), (''family_name'', ''Pile''), (''value'', ''97'')]]
   \<and> create_json_from_params_table
     [[(''value'', ''95''), (''family_name'', ''Pile''), (''type_name'', ''400x400mm''),
       (''parameter_group'', ''PG_DATA''), (''parameter_name'', ''Carbon'')],
      [(''parameter_name'', ''Carbon''), (''parameter_group'', ''PG_TEXT''),
       (''type_name'', ''Wall200''), (''family_name'', ''Wall''), (''value'', ''12'')],
      [(''type_name'', ''500x500mm''), (''parameter_name'', ''Carbon''), (''value'', ''97''),
       (''parameter_group'', ''PG_DATA''), (''family_name'', ''Pile'')]]
   = Inr [\<lparr>ParameterName = ''Carbon'', ParameterGroup = ''PG_DATA'',
            Targets = [\<lparr>TypeName = ''400x400mm'', FamilyName = ''Pile'', Value = ''95''\<rparr>,
                       \<lparr>TypeName = ''500x500mm'', FamilyName = ''Pile'', Value = ''97''\<rparr>]\<rparr>,
          \<lparr>ParameterName = ''Carbon'', ParameterGroup = ''PG_TEXT'',
            Targets = [\<lparr>TypeName = ''Wall200'', FamilyName = ''Wall'', Value = ''12''\<rparr>]\<rparr>]"
proof -
  let ?t1 = "[[(''value'', ''95''), (''family_name'', ''Pile''), (''type_name'', ''400x400mm''),
       (''parameter_group'', ''PG_DATA''), (''parameter_name'', ''Carbon'')],
      [(''parameter_name'', ''Carbon''), (''parameter_group'', ''PG_TEXT''),
       (''type_name'', ''Wall200''), (''family_name'', ''Wall''), (''value'', ''12'')],
      [(''type_name'', ''500x500mm''), (''parameter_name'', ''Carbon''), (''value'', ''97''),
       (''parameter_group'', ''PG_DATA''), (''family_name'', ''Pile'')]]"
  let ?t2 = "[[(''parameter_name'', ''Carbon''), (''parameter_group'', ''PG_DATA''),
       (''type_name'', ''400x400mm''), (''family_name'', ''Pile''), (''value'', ''95'')],
      [(''value'', ''12''), (''parameter_name'', ''Carbon''), (''parameter_group'', ''PG_TEXT''),
       (''type_name'', ''Wall200''), (''family_name'', ''Wall'')],
      [(''parameter_name'', ''Carbon''), (''parameter_group'', ''PG_DATA''),
       (''type_name'', ''500x500mm''), (''family_name'', ''Pile''), (''value'', ''97'')]]"
  have eq: "list_all2 dict_eq ?t1 ?t2"
    by (simp add: dict_eq_def) 
  have run: "create_json_from_params_table ?t1
   = Inr [\<lparr>ParameterName = ''Carbon'', ParameterGroup = ''PG_DATA'',
            Targets = [\<lparr>TypeName = ''400x400mm'', FamilyName = ''Pile'', Value = ''95''\<rparr>,
                       \<lparr>TypeName = ''500x500mm'', FamilyName = ''Pile'', Value = ''97''\<rparr>]\<rparr>,
          \<lparr>ParameterName = ''Carbon'', ParameterGroup = ''PG_TEXT'',
            Targets = [\<lparr>TypeName = ''Wall200'', FamilyName = ''Wall'', Value = ''12''\<rparr>]\<rparr>]"
    by (simp add: create_json_from_params_table_def getitem_def bind_exn_def result_entry_def)
  from create_json_from_params_deterministic [OF eq] run show ?thesis
    by simp
qed

text \<open>
  C7. The grouping partitions the rows: the lengths of the \<^verbatim>\<open>Targets\<close> lists of the result add
  up to the number of rows (the "Total targets" of the success message, line 363), no entry
  has an empty \<^verbatim>\<open>Targets\<close> list, and the empty table gives the empty list.
\<close>

theorem create_json_from_params_partition:
  "sum_list (map (\<lambda>p. length (Targets p)) (create_json_from_params rows)) = length rows
   \<and> (\<forall>e \<in> set (create_json_from_params rows). Targets e \<noteq> [])
   \<and> create_json_from_params ([] :: 'c row list) = []"
proof -
  have total: "sum_list (map (\<lambda>p. length (Targets p)) (create_json_from_params rows))
      = length rows"
    by (rule total_create_json_from_params)
  have "\<forall>item \<in> set (group_rows [] rows). snd item \<noteq> []"
    by (rule nonempty_group_rows) simp
  then have nonempty: "\<forall>e \<in> set (create_json_from_params rows). Targets e \<noteq> []"
    by (auto simp: create_json_from_params_def result_entry_def)
  have "create_json_from_params ([] :: 'c row list) = []"
    by (simp add: create_json_from_params_def)
  with total nonempty show ?thesis
    by blast
qed

theorem create_json_from_params_partition_witness:
  "sum_list (map (\<lambda>p. length (Targets p))
     (create_json_from_params
       [\<lparr>parameter_name = ''A'', parameter_group = ''PG_TEXT'', type_name = ''T1'',
          family_name = ''F'', row_value = ''1''\<rparr>,
        \<lparr>parameter_name = ''B'', parameter_group = ''PG_TEXT'', type_name = ''T1'',
          family_name = ''F'', row_value = ''2''\<rparr>,
        \<lparr>parameter_name = ''A'', parameter_group = ''PG_TEXT'', type_name = ''T2'',
          family_name = ''F'', row_value = ''3''\<rparr>])) = 3
   \<and> map (\<lambda>p. length (Targets p))
     (create_json_from_params
       [\<lparr>parameter_name = ''A'', parameter_group = ''PG_TEXT'', type_name = ''T1'',
          family_name = ''F'', row_value = ''1''\<rparr>,
        \<lparr>parameter_name = ''B'', parameter_group = ''PG_TEXT'', type_name = ''T1'',
          family_name = ''F'', row_value = ''2''\<rparr>,
        \<lparr>parameter_name = ''A'', parameter_group = ''PG_TEXT'', type_name = ''T2'',
          family_name = ''F'', row_value = ''3''\<rparr>]) = [2, 1]"
  using create_json_from_params_partition [of
       "[\<lparr>parameter_name = ''A'', parameter_group = ''PG_TEXT'', type_name = ''T1'',
          family_name = ''F'', row_value = ''1''\<rparr>,
        \<lparr>parameter_name = ''B'', parameter_group = ''PG_TEXT'', type_name = ''T1'',
          family_name = ''F'', row_value = ''2''\<rparr>,
        \<lparr>parameter_name = ''A'', parameter_group = ''PG_TEXT'', type_name = ''T2'',
          family_name = ''F'', row_value = ''3''\<rparr>]"]
  by (simp add: create_json_from_params_def result_entry_def row_key_def row_target_def)

section \<open>The poll loop: termination and exits\<close>

lemma poll_loop_post:
  assumes "poll_loop poll st = (ex, st')"
    and "elapsed st = poll_interval * int (polls st)" and "sleeps st = polls st"
    and "\<not> terminal_status (final_status st)" and "polls st \<le> 61"
    and "\<forall>i<polls st. pending_at poll i"
  shows "polls st \<le> polls st' \<and> polls st' \<le> 61
    \<and> (\<forall>i. Suc i < polls st' \<longrightarrow> pending_at poll i)
    \<and> (case ex of
         Break \<Rightarrow> 0 < polls st' \<and> terminal_at poll (polls st' - 1)
           \<and> answer_at poll (polls st' - 1) st'
           \<and> Suc (sleeps st') = polls st' \<and> elapsed st' = poll_interval * int (sleeps st')
       | Raised e \<Rightarrow> 0 < polls st' \<and> poll (polls st' - 1) = Inl e
           \<and> Suc (sleeps st') = polls st' \<and> \<not> terminal_status (final_status st')
       | Timeout \<Rightarrow> polls st' = 61 \<and> sleeps st' = 61 \<and> elapsed st' = 610
           \<and> \<not> terminal_status (final_status st')
           \<and> (polls st < 61 \<longrightarrow> pending_at poll 60 \<and> answer_at poll 60 st'))"
  using assms
proof (induction poll st rule: poll_loop.induct)
  case (1 poll st)
  show ?case
  proof (cases "elapsed st \<le> max_wait")
    case False
    with "1.prems" have "ex = Timeout" "st' = st"
      by (simp_all add: poll_loop.simps [of poll st])
    moreover from False "1.prems" have "polls st = 61"
      by (simp add: max_wait_def poll_interval_def)
    ultimately show ?thesis
      using "1.prems" by (auto simp: less_Suc_eq poll_interval_def)
  next
    case True
    then have lt: "polls st < 61"
      using "1.prems" by (simp add: max_wait_def poll_interval_def)
    show ?thesis
    proof (cases "poll (polls st)")
      case (Inl e)
      with True "1.prems" have "ex = Raised e" "st' = st\<lparr>polls := Suc (polls st)\<rparr>"
        by (simp_all add: poll_loop.simps [of poll st])
      then show ?thesis
        using "1.prems" Inl lt by (auto simp: less_Suc_eq)
    next
      case (Inr s)
      show ?thesis
      proof (cases "terminal_status (status s)")
        case final: True
        with True Inr "1.prems" have "ex = Break"
          "st' = st\<lparr>final_status := status s, report_url := reportUrl s, polls := Suc (polls st)\<rparr>"
          by (simp_all add: poll_loop.simps [of poll st])
        then show ?thesis
          using "1.prems" Inr lt final by (auto simp: less_Suc_eq terminal_at_def answer_at_def)
      next
        case pending: False
        let ?st = "st\<lparr>final_status := status s, report_url := reportUrl s,
                         polls := Suc (polls st), sleeps := Suc (sleeps st),
                         elapsed := elapsed st + poll_interval\<rparr>"
        have run: "poll_loop poll ?st = (ex, st')"
          using True Inr pending "1.prems"(1) by (simp add: poll_loop.simps [of poll st])
        have pre: "\<forall>i<polls ?st. pending_at poll i"
          using "1.prems" Inr pending by (auto simp: less_Suc_eq pending_at_def)
        have e: "elapsed ?st = poll_interval * int (polls ?st)"
          using "1.prems" by (simp add: poll_interval_def)
        have sl: "sleeps ?st = polls ?st"
          using "1.prems" by simp
        have nt: "\<not> terminal_status (final_status ?st)"
          using pending by simp
        have le: "polls ?st \<le> 61"
          using lt by simp
        note IH = "1.IH" [OF True Inr pending run e sl nt le pre]
        show ?thesis
        proof (cases "polls ?st < 61")
          case True
          with IH show ?thesis by (auto split: loop_exit.splits)
        next
          case False
          with lt have p60: "polls st = 60" by simp
          then have "\<not> elapsed ?st \<le> max_wait"
            using "1.prems" by (simp add: max_wait_def poll_interval_def)
          with run have "ex = Timeout" "st' = ?st"
            by (simp_all add: poll_loop.simps [of poll ?st])
          with IH p60 Inr pending show ?thesis
            by (auto split: loop_exit.splits simp: pending_at_def answer_at_def)
        qed
      qed
    qed
  qed
qed

lemma poll_loop_from_start:
  assumes "poll_loop poll poll_start = (ex, st)"
  shows "polls st \<le> 61"
    and "\<forall>i. Suc i < polls st \<longrightarrow> pending_at poll i"
    and "ex = Break \<Longrightarrow> 0 < polls st \<and> terminal_at poll (polls st - 1)
           \<and> answer_at poll (polls st - 1) st
           \<and> Suc (sleeps st) = polls st \<and> elapsed st = poll_interval * int (sleeps st)"
    and "ex = Raised e \<Longrightarrow> 0 < polls st \<and> poll (polls st - 1) = Inl e
           \<and> Suc (sleeps st) = polls st \<and> \<not> terminal_status (final_status st)"
    and "ex = Timeout \<Longrightarrow> polls st = 61 \<and> sleeps st = 61 \<and> elapsed st = 610
           \<and> \<not> terminal_status (final_status st)
           \<and> pending_at poll 60 \<and> answer_at poll 60 st"
  using poll_loop_post [OF assms]
  by (simp_all add: poll_start_def terminal_status_def)

lemma terminal_not_pending: "terminal_at poll k \<Longrightarrow> \<not> pending_at poll k"
  by (simp add: terminal_at_def pending_at_def split: sum.splits)

lemma raised_not_pending: "poll k = Inl e \<Longrightarrow> \<not> pending_at poll k"
  by (simp add: pending_at_def)

text \<open>
  C2. For every sequence of answers of the status endpoint the poll loop (the same in
  \<^verbatim>\<open>process_with_workitem\<close> and \<^verbatim>\<open>export_to_ifc\<close>) terminates. It makes at most
  \<open>ceil(max_wait / poll_interval) + 1 = 61\<close> status requests: it makes none after a terminal
  status, and otherwise it leaves by its condition, after 61 requests, once \<^verbatim>\<open>elapsed\<close> has
  passed \<^verbatim>\<open>max_wait\<close>. (\<^verbatim>\<open>elapsed\<close> counts the seconds slept, not the time the requests take.)
\<close>

theorem poll_loop_terminates:
  "\<exists>ex st. poll_loop poll poll_start = (ex, st)
     \<and> polls st \<le> nat ((max_wait + poll_interval - 1) div poll_interval) + 1
     \<and> nat ((max_wait + poll_interval - 1) div poll_interval) + 1 = 61
     \<and> sleeps st \<le> polls st
     \<and> (\<forall>k. terminal_at poll k \<longrightarrow> polls st \<le> Suc k)
     \<and> (ex = Timeout \<longrightarrow> polls st = 61 \<and> max_wait < elapsed st)
     \<and> ((\<forall>k<61. pending_at poll k) \<longrightarrow> ex = Timeout \<and> polls st = 61)"
proof -
  obtain ex st where run: "poll_loop poll poll_start = (ex, st)"
    by (cases "poll_loop poll poll_start")
  note post = poll_loop_from_start [OF run]
  have bound: "nat ((max_wait + poll_interval - 1) div poll_interval) + 1 = 61"
    by (simp add: max_wait_def poll_interval_def)
  have sl: "sleeps st \<le> polls st"
    using post(3,5) post(4) by (cases ex) auto
  have early: "\<forall>k. terminal_at poll k \<longrightarrow> polls st \<le> Suc k"
    using post(2) terminal_not_pending by (meson not_less)
  have out: "ex = Timeout \<longrightarrow> polls st = 61 \<and> max_wait < elapsed st"
    using post(5) by (simp add: max_wait_def)
  have all: "(\<forall>k<61. pending_at poll k) \<longrightarrow> ex = Timeout \<and> polls st = 61"
  proof
    assume pend: "\<forall>k<61. pending_at poll k"
    have last: "polls st - 1 < 61"
      using post(1) by simp
    have "ex = Timeout"
    proof (cases ex)
      case Break
      with post(3) pend last terminal_not_pending show ?thesis by blast
    next
      case Timeout
      then show ?thesis .
    next
      case (Raised e)
      with post(4) pend last raised_not_pending show ?thesis by blast
    qed
    with post(5) show "ex = Timeout \<and> polls st = 61" by simp
  qed
  from run post(1) bound sl early out all show ?thesis
    by (intro exI conjI) simp_all
qed

theorem poll_loop_terminates_witness:
  "poll_loop (answers_after 2 ''cancelled'') poll_start
     = (Break, \<lparr>elapsed = 20, final_status = Some ''cancelled'', report_url = None,
                polls = 3, sleeps = 2\<rparr>)
   \<and> terminal_at (answers_after 2 ''cancelled'') 2"
  using poll_loop_terminates [of "answers_after 2 ''cancelled''"]
  by (simp add: poll_loop.simps poll_start_def answers_after_def terminal_status_def
      terminal_at_def max_wait_def poll_interval_def)

text \<open>
  C3. The loop is left by \<^verbatim>\<open>break\<close> exactly when the status just polled is one of "success",
  "failed" and "cancelled". Every status request before the last one returned another
  status; after such a status the loop sleeps (it sleeps once for each of them) and, as long
  as the timeout is not reached, polls again. When the last status polled is not terminal,
  the loop ended by the timeout, after 61 requests.
\<close>

theorem poll_loop_breaks_on_terminal_only:
  assumes "poll_loop poll poll_start = (ex, st)"
  shows "(ex = Break \<longleftrightarrow> 0 < polls st \<and> terminal_at poll (polls st - 1))
    \<and> (ex = Break \<longleftrightarrow> terminal_status (final_status st))
    \<and> (\<forall>k. Suc k < polls st \<longrightarrow> pending_at poll k)
    \<and> (\<forall>k<60. k < polls st \<and> pending_at poll k \<longrightarrow> Suc k < polls st)
    \<and> (0 < polls st \<and> pending_at poll (polls st - 1)
          \<longrightarrow> ex = Timeout \<and> polls st = 61 \<and> max_wait < elapsed st)
    \<and> sleeps st = length (filter (pending_at poll) [0..<polls st])"
proof -
  note post = poll_loop_from_start [OF assms]
  have last: "0 < polls st"
    using post(3,5) post(4) by (cases ex) auto
  have brk: "ex = Break \<longleftrightarrow> 0 < polls st \<and> terminal_at poll (polls st - 1)"
  proof (cases ex)
    case Break
    with post(3) show ?thesis by simp
  next
    case Timeout
    with post(5) terminal_not_pending [of poll 60] show ?thesis by auto
  next
    case (Raised e)
    with post(4) show ?thesis by (auto simp: terminal_at_def)
  qed
  have fin: "ex = Break \<longleftrightarrow> terminal_status (final_status st)"
  proof (cases ex)
    case Break
    with post(3) show ?thesis
      by (auto simp: terminal_at_def answer_at_def split: sum.splits)
  next
    case Timeout
    with post(5) show ?thesis by simp
  next
    case (Raised e)
    with post(4) show ?thesis by simp
  qed
  have pend: "0 < polls st \<and> pending_at poll (polls st - 1)
      \<longrightarrow> ex = Timeout \<and> polls st = 61 \<and> max_wait < elapsed st"
  proof (cases ex)
    case Break
    with post(3) terminal_not_pending show ?thesis by blast
  next
    case Timeout
    with post(5) show ?thesis by (simp add: max_wait_def)
  next
    case (Raised e)
    with post(4) raised_not_pending show ?thesis by blast
  qed
  have again: "\<forall>k<60. k < polls st \<and> pending_at poll k \<longrightarrow> Suc k < polls st"
  proof (intro allI impI)
    fix k :: nat
    assume k: "k < 60" and "k < polls st \<and> pending_at poll k"
    then have lt: "k < polls st" and p: "pending_at poll k" by simp_all
    show "Suc k < polls st"
    proof (rule ccontr)
      assume "\<not> Suc k < polls st"
      with lt have eq: "polls st - 1 = k" "0 < polls st" by simp_all
      with pend p have "polls st = 61" by simp
      with eq k show False by simp
    qed
  qed
  have cnt: "sleeps st = length (filter (pending_at poll) [0..<polls st])"
  proof -
    obtain n where n: "polls st = Suc n"
      using last by (cases "polls st") simp_all
    have "\<forall>i<n. pending_at poll i"
      using post(2) n by simp
    then have "filter (pending_at poll) [0..<n] = [0..<n]"
      by simp
    then have len: "length (filter (pending_at poll) [0..<polls st])
        = n + (if pending_at poll n then 1 else 0)"
      using n by simp
    show ?thesis
    proof (cases ex)
      case Break
      with post(3) n terminal_not_pending [of poll n] len show ?thesis by auto
    next
      case Timeout
      with post(5) n len show ?thesis by auto
    next
      case (Raised e)
      with post(4) n raised_not_pending [of poll n e] len show ?thesis by auto
    qed
  qed
  from brk fin post(2) again pend cnt show ?thesis
    by blast
qed

theorem poll_loop_breaks_on_terminal_only_witness:
  "poll_loop (answers_after 3 ''failed'') poll_start
     = (Break, \<lparr>elapsed = 30, final_status = Some ''failed'', report_url = None,
                polls = 4, sleeps = 3\<rparr>)
   \<and> pending_at (answers_after 3 ''failed'') 2
   \<and> terminal_at (answers_after 3 ''failed'') 3
   \<and> length (filter (pending_at (answers_after 3 ''failed'')) [0..<4]) = 3"
proof -
  have run: "poll_loop (answers_after 3 ''failed'') poll_start
     = (Break, \<lparr>elapsed = 30, final_status = Some ''failed'', report_url = None,
                polls = 4, sleeps = 3\<rparr>)"
    by (simp add: poll_loop.simps poll_start_def answers_after_def terminal_status_def
        max_wait_def poll_interval_def)
  show ?thesis
    using poll_loop_breaks_on_terminal_only [OF run] run
    by (simp add: pending_at_def terminal_at_def answers_after_def terminal_status_def)
qed

section \<open>The status check after the loop\<close>

lemma bind_exn_Inr: "bind_exn r f = Inr y \<longleftrightarrow> (\<exists>v. r = Inr v \<and> f v = Inr y)"
  by (simp add: bind_exn_def split: sum.splits)

lemma poll_until_done_completed:
  assumes "poll_loop poll poll_start = (ex, st)" and "\<forall>e. ex \<noteq> Raised e"
  shows "poll_until_done lead poll =
     (if final_status st \<noteq> Some ''success''
      then Inl (UserError (status_message lead st))
      else Inr st)"
  using assms
  by (cases ex) (simp_all add: poll_until_done_def check_final_status_def bind_exn_def)

lemma sublist_report_suffix: "sublist u (report_suffix (Some u))"
proof (cases "u = []")
  case True
  then show ?thesis by simp
next
  case False
  then have "report_suffix (Some u) = (newline @ ''Report URL: '') @ u"
    by simp
  then show ?thesis
    by (simp only: sublist_append_leftI)
qed

lemma sublist_in_append: "sublist u t \<Longrightarrow> sublist u (xs @ t @ ys)"
proof -
  assume "sublist u t"
  then obtain ps ss where "t = ps @ u @ ss"
    by (auto simp: sublist_def)
  then have "xs @ t @ ys = (xs @ ps) @ u @ (ss @ ys)"
    by simp
  then show "sublist u (xs @ t @ ys)"
    unfolding sublist_def by blast
qed

lemma sublist_status_message:
  "sublist (py_str (final_status st)) (status_message lead st)"
  "report_url st = Some u \<Longrightarrow> sublist u (status_message lead st)"
proof -
  show "sublist (py_str (final_status st)) (status_message lead st)"
    unfolding status_message_def by (rule sublist_appendI)
  assume "report_url st = Some u"
  then have "sublist u (report_suffix (report_url st))"
    by (simp only: sublist_report_suffix)
  then have "sublist u ((lead @ py_str (final_status st)) @ report_suffix (report_url st) @ [])"
    by (rule sublist_in_append)
  then show "sublist u (status_message lead st)"
    by (simp add: status_message_def)
qed

lemma process_after_submit:
  assumes tok: "get_access_token sv 0 = Inr token"
    and sub: "process_submit sv params token = Inr (config, workitem, wi)"
    and run: "poll_loop (workitem_polls sv wi token) poll_start = (ex, st)"
    and nr: "\<forall>e. ex \<noteq> Raised e"
  shows "final_status st \<noteq> Some ''success'' \<Longrightarrow>
      process_with_workitem sv params
        = Inl (UserError (''Error in Automation workflow: ''
            @ status_message ''Automation did not finish with success. Status: '' st
            @ newline @ newline @ ''Details:'' @ newline
            @ format_exc sv
                (UserError (status_message ''Automation did not finish with success. Status: ''
                              st))))"
    and "final_status st = Some ''success'' \<Longrightarrow>
      process_with_workitem sv params
        = (case create_acc_item sv workitem token of
             Inl e \<Rightarrow> Inl (UserError (''Error in Automation workflow: '' @ str_exn e @ newline
                                       @ newline @ ''Details:'' @ newline @ format_exc sv e))
           | Inr u \<Rightarrow> Inr \<lparr>configurations = length config,
                            total_targets = sum_list (map (\<lambda>p. length (Targets p)) config),
                            workitem_id = wi, report = report_suffix (report_url st)\<rparr>)"
  using tok sub poll_until_done_completed [OF run nr,
      of "''Automation did not finish with success. Status: ''"]
  by (simp_all add: process_with_workitem_def process_body_def bind_exn_def split: sum.splits)

lemma export_after_submit:
  assumes tok: "get_access_token sv 0 = Inr token"
    and sub: "export_submit sv params token = Inr (workitem, wi)"
    and run: "poll_loop (workitem_polls sv wi token) poll_start = (ex, st)"
    and nr: "\<forall>e. ex \<noteq> Raised e"
  shows "final_status st \<noteq> Some ''success'' \<Longrightarrow>
      export_to_ifc sv params
        = Inl (UserError (''Error in IFC Export workflow: ''
            @ status_message ''IFC export did not finish with success. Status: '' st
            @ newline @ newline @ ''Details:'' @ newline
            @ format_exc sv
                (UserError (status_message ''IFC export did not finish with success. Status: ''
                              st))))"
    and "final_status st = Some ''success'' \<Longrightarrow>
      export_to_ifc sv params
        = (case create_acc_item sv workitem token of
             Inl e \<Rightarrow> Inl (UserError (''Error in IFC Export workflow: '' @ str_exn e @ newline
                                       @ newline @ ''Details:'' @ newline @ format_exc sv e))
           | Inr u \<Rightarrow> Inr \<lparr>exported_views = selected_views_for_ifc params,
                            export_workitem_id = wi,
                            export_report_tail = report_suffix (report_url st)\<rparr>)"
  using tok sub poll_until_done_completed [OF run nr,
      of "''IFC export did not finish with success. Status: ''"]
  by (simp_all add: export_to_ifc_def export_body_def bind_exn_def split: sum.splits)

lemma last_answer:
  assumes "poll_loop poll poll_start = (ex, st)" and "\<forall>e. ex \<noteq> Raised e"
  shows "0 < polls st \<and> answer_at poll (polls st - 1) st"
  using poll_loop_from_start(3,5) [OF assms(1)] assms(2) by (cases ex) auto

text \<open>
  C4, as stated of the two workflows, fails in its "only if": with the final status
  "success" the workflow still raises a user-facing error when \<^verbatim>\<open>create_acc_item\<close> (lines 355
  and 550) raises, and the message of that error does not contain the status.
\<close>

theorem status_success_still_raises_counterexample:
  "poll_loop (workitem_polls acc_item_failing_services ''wi1'' ''token'') poll_start
     = (Break, \<lparr>elapsed = 0, final_status = Some ''success'', report_url = None,
                polls = 1, sleeps = 0\<rparr>)
   \<and> process_with_workitem acc_item_failing_services sample_params
     = Inl (UserError (''Error in Automation workflow: 403 Forbidden'' @ newline @ newline
                       @ ''Details:'' @ newline
                       @ ''Traceback (most recent call last): 403 Forbidden''))
   \<and> export_to_ifc acc_item_failing_services sample_params
     = Inl (UserError (''Error in IFC Export workflow: 403 Forbidden'' @ newline @ newline
                       @ ''Details:'' @ newline
                       @ ''Traceback (most recent call last): 403 Forbidden''))
   \<and> \<not> sublist ''success''
         (''Error in Automation workflow: 403 Forbidden'' @ newline @ newline
          @ ''Details:'' @ newline @ ''Traceback (most recent call last): 403 Forbidden'')
   \<and> \<not> sublist ''success''
         (''Error in IFC Export workflow: 403 Forbidden'' @ newline @ newline
          @ ''Details:'' @ newline @ ''Traceback (most recent call last): 403 Forbidden'')"
  by (simp add: newline_def sublist_Cons_right process_with_workitem_def process_body_def
      process_submit_def
      export_to_ifc_def export_body_def export_submit_def bind_exn_def Let_def
      acc_item_failing_services_def sample_services_def sample_params_def sample_file_def
      detect_revit_version_def poll_until_done_def check_final_status_def poll_loop.simps
      poll_start_def workitem_polls_def get_workitem_status_def terminal_status_def
      max_wait_def poll_interval_def)

text \<open>
  C4, amended. Once the work item is submitted and the poll loop has run to its end (by
  \<^verbatim>\<open>break\<close> or by the timeout), the final status and the report URL are those of the last
  status answer. If that status is not "success", \<^verbatim>\<open>process_with_workitem\<close> and
  \<^verbatim>\<open>export_to_ifc\<close> raise a \<^verbatim>\<open>vkt.UserError\<close> whose message contains the message of the status
  check, hence the final status and the report URL, when the answer has one. If the status
  is "success", they raise if and only if \<^verbatim>\<open>create_acc_item\<close> raises, and then too what they
  raise is a \<^verbatim>\<open>vkt.UserError\<close>.
\<close>

theorem workflows_raise_on_final_status:
  "(\<forall>token config workitem wi ex st.
      get_access_token sv 0 = Inr token
      \<and> process_submit sv params token = Inr (config, workitem, wi)
      \<and> poll_loop (workitem_polls sv wi token) poll_start = (ex, st)
      \<and> (\<forall>e. ex \<noteq> Raised e) \<longrightarrow>
        0 < polls st \<and> answer_at (workitem_polls sv wi token) (polls st - 1) st
        \<and> (final_status st \<noteq> Some ''success'' \<longrightarrow>
             (\<exists>m. process_with_workitem sv params = Inl (UserError m)
                \<and> sublist (status_message ''Automation did not finish with success. Status: '' st) m
                \<and> sublist (py_str (final_status st)) m
                \<and> (\<forall>u. report_url st = Some u \<longrightarrow> sublist u m)))
        \<and> (final_status st = Some ''success'' \<longrightarrow>
             ((\<exists>x. process_with_workitem sv params = Inl x)
                \<longleftrightarrow> (\<exists>e. create_acc_item sv workitem token = Inl e))
             \<and> (\<forall>x. process_with_workitem sv params = Inl x \<longrightarrow> is_UserError x)))
   \<and> (\<forall>token workitem wi ex st.
      get_access_token sv 0 = Inr token
      \<and> export_submit sv params token = Inr (workitem, wi)
      \<and> poll_loop (workitem_polls sv wi token) poll_start = (ex, st)
      \<and> (\<forall>e. ex \<noteq> Raised e) \<longrightarrow>
        0 < polls st \<and> answer_at (workitem_polls sv wi token) (polls st - 1) st
        \<and> (final_status st \<noteq> Some ''success'' \<longrightarrow>
             (\<exists>m. export_to_ifc sv params = Inl (UserError m)
                \<and> sublist (status_message ''IFC export did not finish with success. Status: '' st) m
                \<and> sublist (py_str (final_status st)) m
                \<and> (\<forall>u. report_url st = Some u \<longrightarrow> sublist u m)))
        \<and> (final_status st = Some ''success'' \<longrightarrow>
             ((\<exists>x. export_to_ifc sv params = Inl x)
                \<longleftrightarrow> (\<exists>e. create_acc_item sv workitem token = Inl e))
             \<and> (\<forall>x. export_to_ifc sv params = Inl x \<longrightarrow> is_UserError x)))"
proof (intro conjI allI impI; (elim conjE)?)
  fix token config workitem wi ex st
  assume tok: "get_access_token sv 0 = Inr token"
    and sub: "process_submit sv params token = Inr (config, workitem, wi)"
    and run: "poll_loop (workitem_polls sv wi token) poll_start = (ex, st)"
    and nr: "\<forall>e. ex \<noteq> Raised e"
  note after = process_after_submit [OF tok sub run nr]
  let ?lead = "''Automation did not finish with success. Status: ''"
  show "0 < polls st" "answer_at (workitem_polls sv wi token) (polls st - 1) st"
    using last_answer [OF run nr] by simp_all
  {
    assume bad: "final_status st \<noteq> Some ''success''"
    let ?m = "''Error in Automation workflow: '' @ status_message ?lead st
            @ newline @ newline @ ''Details:'' @ newline
            @ format_exc sv (UserError (status_message ?lead st))"
    have m: "process_with_workitem sv params = Inl (UserError ?m)"
      using after(1) [OF bad] by simp
    have inner: "sublist (status_message ?lead st) ?m"
      by (rule sublist_appendI)
    have "sublist (py_str (final_status st)) ?m"
      by (rule sublist_in_append) (rule sublist_status_message(1))
    moreover have "\<forall>u. report_url st = Some u \<longrightarrow> sublist u ?m"
      by (intro allI impI sublist_in_append) (rule sublist_status_message(2))
    ultimately show "\<exists>m. process_with_workitem sv params = Inl (UserError m)
                \<and> sublist (status_message ?lead st) m
                \<and> sublist (py_str (final_status st)) m
                \<and> (\<forall>u. report_url st = Some u \<longrightarrow> sublist u m)"
      using m inner by blast
  }
  {
    assume good: "final_status st = Some ''success''"
    show "(\<exists>x. process_with_workitem sv params = Inl x)
        \<longleftrightarrow> (\<exists>e. create_acc_item sv workitem token = Inl e)"
      by (simp add: after(2) [OF good] split: sum.splits)
    fix x assume "process_with_workitem sv params = Inl x"
    then show "is_UserError x"
      by (auto simp: after(2) [OF good] split: sum.splits)
  }
next
  fix token workitem wi ex st
  assume tok: "get_access_token sv 0 = Inr token"
    and sub: "export_submit sv params token = Inr (workitem, wi)"
    and run: "poll_loop (workitem_polls sv wi token) poll_start = (ex, st)"
    and nr: "\<forall>e. ex \<noteq> Raised e"
  note after = export_after_submit [OF tok sub run nr]
  let ?lead = "''IFC export did not finish with success. Status: ''"
  show "0 < polls st" "answer_at (workitem_polls sv wi token) (polls st - 1) st"
    using last_answer [OF run nr] by simp_all
  {
    assume bad: "final_status st \<noteq> Some ''success''"
    let ?m = "''Error in IFC Export workflow: '' @ status_message ?lead st
            @ newline @ newline @ ''Details:'' @ newline
            @ format_exc sv (UserError (status_message ?lead st))"
    have m: "export_to_ifc sv params = Inl (UserError ?m)"
      using after(1) [OF bad] by simp
    have inner: "sublist (status_message ?lead st) ?m"
      by (rule sublist_appendI)
    have "sublist (py_str (final_status st)) ?m"
      by (rule sublist_in_append) (rule sublist_status_message(1))
    moreover have "\<forall>u. report_url st = Some u \<longrightarrow> sublist u ?m"
      by (intro allI impI sublist_in_append) (rule sublist_status_message(2))
    ultimately show "\<exists>m. export_to_ifc sv params = Inl (UserError m)
                \<and> sublist (status_message ?lead st) m
                \<and> sublist (py_str (final_status st)) m
                \<and> (\<forall>u. report_url st = Some u \<longrightarrow> sublist u m)"
      using m inner by blast
  }
  {
    assume good: "final_status st = Some ''success''"
    show "(\<exists>x. export_to_ifc sv params = Inl x)
        \<longleftrightarrow> (\<exists>e. create_acc_item sv workitem token = Inl e)"
      by (simp add: after(2) [OF good] split: sum.splits)
    fix x assume "export_to_ifc sv params = Inl x"
    then show "is_UserError x"
      by (auto simp: after(2) [OF good] split: sum.splits)
  }
qed


theorem workflows_raise_on_final_status_witness:
  "(\<exists>m. process_with_workitem sample_services sample_params = Inl (UserError m)
        \<and> sublist ''failed'' m \<and> sublist ''https://report'' m)
   \<and> (\<exists>m. export_to_ifc sample_services sample_params = Inl (UserError m)
        \<and> sublist ''failed'' m \<and> sublist ''https://report'' m)"
proof -
  let ?st = "\<lparr>elapsed = 20, final_status = Some ''failed'',
              report_url = Some ''https://report'', polls = 3, sleeps = 2\<rparr>"
  let ?config = "create_json_from_params (targets sample_params)"
  let ?pw = "\<lparr>rvtFile = sample_file, configJson = TypeParams ?config,
              result_folder_id = ''folder'', result_file_name = ''tower_01234567.rvt'',
              activity_full_alias = ''owner.TypeParams+prod''\<rparr>
            :: (string, string list) workitem"
  let ?ew = "\<lparr>rvtFile = sample_file, configJson = IfcSettings [''3D''],
              result_folder_id = ''folder'', result_file_name = ''tower_IFC_01234567.zip'',
              activity_full_alias = ''owner.IfcExport+prod''\<rparr>
            :: (string, string list) workitem"
  have tok: "get_access_token sample_services 0 = Inr ''token''"
    by (simp add: sample_services_def)
  have psub: "process_submit sample_services sample_params ''token'' = Inr (?config, ?pw, ''wi1'')"
    by (simp add: process_submit_def sample_services_def sample_params_def bind_exn_def
        detect_revit_version_def Let_def)
  have esub: "export_submit sample_services sample_params ''token'' = Inr (?ew, ''wi1'')"
    by (simp add: export_submit_def sample_services_def sample_params_def bind_exn_def
        detect_revit_version_def Let_def)
  have run: "poll_loop (workitem_polls sample_services ''wi1'' ''token'') poll_start
      = (Break, ?st)"
    by (simp add: poll_loop.simps poll_start_def workitem_polls_def get_workitem_status_def
        sample_services_def bind_exn_def terminal_status_def max_wait_def poll_interval_def)
  have nr: "\<forall>e. Break \<noteq> Raised e"
    by simp
  note inst = workflows_raise_on_final_status [of sample_services sample_params]
  have "get_access_token sample_services 0 = Inr ''token''
      \<and> process_submit sample_services sample_params ''token'' = Inr (?config, ?pw, ''wi1'')
      \<and> poll_loop (workitem_polls sample_services ''wi1'' ''token'') poll_start = (Break, ?st)
      \<and> (\<forall>e. Break \<noteq> Raised e)"
    using tok psub run nr by (intro conjI)
  from inst [THEN conjunct1, rule_format, OF this]
  have p: "\<exists>m. process_with_workitem sample_services sample_params = Inl (UserError m)
        \<and> sublist ''failed'' m \<and> sublist ''https://report'' m"
    by auto
  have "get_access_token sample_services 0 = Inr ''token''
      \<and> export_submit sample_services sample_params ''token'' = Inr (?ew, ''wi1'')
      \<and> poll_loop (workitem_polls sample_services ''wi1'' ''token'') poll_start = (Break, ?st)
      \<and> (\<forall>e. Break \<noteq> Raised e)"
    using tok esub run nr by (intro conjI)
  from inst [THEN conjunct2, rule_format, OF this]
  have e: "\<exists>m. export_to_ifc sample_services sample_params = Inl (UserError m)
        \<and> sublist ''failed'' m \<and> sublist ''https://report'' m"
    by auto
  from p e show ?thesis ..
qed

section \<open>The exception handlers of the workflows\<close>




section \<open>What a run without an exception implies\<close>

text \<open>
  A workflow returns normally only when the poll loop was left by \<^verbatim>\<open>break\<close> with the final
  status "success"; the total of targets that \<^verbatim>\<open>process_with_workitem\<close> then reports is the
  number of rows of the table.
\<close>

lemma poll_until_done_Inr:
  assumes "poll_until_done lead poll = Inr st"
  shows "poll_loop poll poll_start = (Break, st) \<and> final_status st = Some ''success''"
proof -
  obtain ex st' where run: "poll_loop poll poll_start = (ex, st')"
    by (cases "poll_loop poll poll_start")
  have nr: "\<forall>e. ex \<noteq> Raised e"
    using assms run by (auto simp: poll_until_done_def)
  from poll_until_done_completed [OF run nr, of lead] assms
  have st: "st' = st" "final_status st' = Some ''success''"
    by (simp_all split: if_splits)
  then have "terminal_status (final_status st')"
    by (simp add: terminal_status_def)
  with poll_loop_from_start(4,5) [OF run] nr have "ex = Break"
    by (cases ex) auto
  with run st show ?thesis by simp
qed

lemma process_submit_config:
  "process_submit sv params token = Inr (config, workitem, wi)
     \<Longrightarrow> config = create_json_from_params (targets params)"
  by (auto simp: process_submit_def bind_exn_Inr Let_def split: option.splits)

lemma process_body_success:
  assumes "process_body sv params token = Inr r"
  shows "\<exists>st. poll_loop (workitem_polls sv (workitem_id r) token) poll_start = (Break, st)
           \<and> final_status st = Some ''success''
           \<and> report r = report_suffix (report_url st)
           \<and> total_targets r = length (targets params)
           \<and> configurations r = length (create_json_from_params (targets params))"
proof -
  from assms obtain config workitem wi st where
    sub: "process_submit sv params token = Inr (config, workitem, wi)"
    and poll: "poll_until_done ''Automation did not finish with success. Status: ''
             (workitem_polls sv wi token) = Inr st"
    and r: "r = \<lparr>configurations = length config,
               total_targets = sum_list (map (\<lambda>p. length (Targets p)) config),
               workitem_id = wi, report = report_suffix (report_url st)\<rparr>"
    by (auto simp: process_body_def bind_exn_Inr)
  have "config = create_json_from_params (targets params)"
    using sub by (rule process_submit_config)
  then have "total_targets r = length (targets params)"
    "configurations r = length (create_json_from_params (targets params))"
    using r by (simp_all add: total_create_json_from_params)
  with poll_until_done_Inr [OF poll] r show ?thesis
    by auto
qed

lemma process_with_workitem_success:
  assumes "process_with_workitem sv params = Inr r"
  shows "\<exists>token st. get_access_token sv 0 = Inr token
           \<and> poll_loop (workitem_polls sv (workitem_id r) token) poll_start = (Break, st)
           \<and> final_status st = Some ''success''
           \<and> total_targets r = length (targets params)"
proof -
  have "\<exists>token. get_access_token sv 0 = Inr token \<and> process_body sv params token = Inr r"
    using assms by (auto simp: process_with_workitem_def bind_exn_def split: sum.splits)
  then obtain token where "get_access_token sv 0 = Inr token"
    and "process_body sv params token = Inr r"
    by blast
  with process_body_success [of sv params token r] show ?thesis
    by blast
qed

lemma export_body_success:
  assumes "export_body sv params token = Inr r"
  shows "\<exists>st. poll_loop (workitem_polls sv (export_workitem_id r) token) poll_start = (Break, st)
           \<and> final_status st = Some ''success''
           \<and> export_report_tail r = report_suffix (report_url st)"
proof -
  from assms obtain wi st where
    poll: "poll_until_done ''IFC export did not finish with success. Status: ''
             (workitem_polls sv wi token) = Inr st"
    and r: "export_workitem_id r = wi" "export_report_tail r = report_suffix (report_url st)"
    by (auto simp: export_body_def bind_exn_Inr)
  with poll_until_done_Inr [OF poll] show ?thesis
    by auto
qed

lemma export_to_ifc_success:
  assumes "export_to_ifc sv params = Inr r"
  shows "\<exists>token st. get_access_token sv 0 = Inr token
           \<and> poll_loop (workitem_polls sv (export_workitem_id r) token) poll_start = (Break, st)
           \<and> final_status st = Some ''success''"
proof -
  have "\<exists>token. get_access_token sv 0 = Inr token \<and> export_body sv params token = Inr r"
    using assms by (auto simp: export_to_ifc_def bind_exn_def split: sum.splits)
  then obtain token where "get_access_token sv 0 = Inr token"
    and "export_body sv params token = Inr r"
    by blast
  with export_body_success [of sv params token r] show ?thesis
    by blast
qed

text \<open>The two defaults of the display name in the file names.\<close>

lemma none_display_name:
  "py_str (display_name \<lparr>urn_of_version = u, displayName = Some None\<rparr>) = ''None''"
  "py_str (display_name \<lparr>urn_of_version = u, displayName = None\<rparr>) = ''model''"
  by simp_all

section \<open>The view names\<close>



text \<open>
  C10. When no output file is selected in the IFC-export step, \<^verbatim>\<open>get_view_names_options\<close>
  returns the empty list, without a call to an external service and without raising.
\<close>

theorem get_view_names_options_without_file:
  "output_file params = None \<Longrightarrow> get_view_names_options sv params calls = (Inr [], calls)"
  by (simp add: get_view_names_options_def)

theorem get_view_names_options_without_file_witness:
  "output_file (sample_params\<lparr>output_file := None\<rparr>) = None
   \<and> get_view_names_options failing_token_services (sample_params\<lparr>output_file := None\<rparr>) []
     = (Inr [], [])"
  using get_view_names_options_without_file [of "sample_params\<lparr>output_file := None\<rparr>"
      failing_token_services "[]"]
  by simp

end
